theory Spec2Isabelle
  imports Complex_Main "HOL-Library.Multiset"
begin

section \<open>Worksheets\<close>

text \<open>
  The scripts read Excel worksheets through openpyxl. A cell value is \<open>None\<close> for an
  empty cell and a Python string for a text cell; columns C (the word type, index 2) and
  E (the manual metaphor code, index 4) of the thesis workbooks hold text. A row is kept
  as its two inspected cells plus the remaining cells, which the scripts only copy. A
  worksheet is the list of its data rows (the rows below the header, which every script
  copies verbatim and skips with \<open>min_row=2\<close>), so \<open>sheet.max_row - 1\<close> is the length
  of that list. The sheets have at least five columns: \<open>row[2]\<close> and \<open>row[4]\<close> exist
  for every row.
\<close>

type_synonym cell = "string option"

record row =
  col_C :: cell
  col_E :: cell
  other_cells :: "cell list"

type_synonym sheet = "row list"

text \<open>Python's truth value of a cell value: \<open>None\<close> and the empty string are false.\<close>

definition truthy :: "cell \<Rightarrow> bool" where
  "truthy v = (case v of None \<Rightarrow> False | Some s \<Rightarrow> s \<noteq> [])"

text \<open>\<open>str(v)\<close>: a string is itself, \<open>None\<close> prints as \<open>None\<close>.\<close>

definition py_str :: "cell \<Rightarrow> string" where
  "py_str v = (case v of None \<Rightarrow> ''None'' | Some s \<Rightarrow> s)"

text \<open>
  \<open>str.upper\<close> and \<open>str.lower\<close> on the ASCII letters; every other byte is left as it
  is (no character outside ASCII has an upper-case form among the strings the scripts
  compare against, other than the long s for \<open>S\<close>).
\<close>

definition upper_char :: "char \<Rightarrow> char" where
  "upper_char c =
     (case map_of (zip ''abcdefghijklmnopqrstuvwxyz'' ''ABCDEFGHIJKLMNOPQRSTUVWXYZ'') c of
        Some d \<Rightarrow> d
      | None \<Rightarrow> c)"

definition lower_char :: "char \<Rightarrow> char" where
  "lower_char c =
     (case map_of (zip ''ABCDEFGHIJKLMNOPQRSTUVWXYZ'' ''abcdefghijklmnopqrstuvwxyz'') c of
        Some d \<Rightarrow> d
      | None \<Rightarrow> c)"

definition upper :: "string \<Rightarrow> string" where
  "upper s = map upper_char s"

definition lower :: "string \<Rightarrow> string" where
  "lower s = map lower_char s"

section \<open>Frequencies and estimates (07\_frequenciesandestimates.py)\<close>

subsection \<open>The metaphor test\<close>

text \<open>
  The guard \<open>row[4].value and str(row[4].value).upper() in ('Y', 'O')\<close>, written three
  times in \<open>process_workbook\<close>: for the \<open>extra\<close> sheet, the low-frequency sheet and the
  sample sheet after the removal.
\<close>

definition is_metaphor :: "row \<Rightarrow> bool" where
  "is_metaphor r =
     (truthy (col_E r) \<and> upper (py_str (col_E r)) \<in> set [''Y'', ''O''])"

text \<open>The counting loop \<open>for row in sheet.iter_rows(min_row=2): if ...: count += 1\<close>.\<close>

definition count_metaphors :: "sheet \<Rightarrow> int" where
  "count_metaphors rows = fold (\<lambda>r n. if is_metaphor r then n + 1 else n) rows 0"

subsection \<open>Counting the strings of column C\<close>

text \<open>
  \<open>string_counts = defaultdict(int)\<close> keeps its keys in insertion order; it is an
  association list here. \<open>increment\<close> is \<open>string_counts[k] += 1\<close>: a missing key
  starts from the default 0. \<open>count_string\<close> is the body of the loop over the rows.
\<close>

fun increment :: "string \<Rightarrow> (string \<times> int) list \<Rightarrow> (string \<times> int) list" where
  "increment k [] = [(k, 0 + 1)]"
| "increment k ((k', n) # kvs) =
     (if k = k' then (k', n + 1) # kvs else (k', n) # increment k kvs)"

definition count_string :: "row \<Rightarrow> (string \<times> int) list \<Rightarrow> (string \<times> int) list" where
  "count_string r counts =
     (if truthy (col_C r) then increment (py_str (col_C r)) counts else counts)"

definition string_counts :: "sheet \<Rightarrow> (string \<times> int) list" where
  "string_counts sh = fold count_string sh []"

text \<open>\<open>[string for string, count in string_counts.items() if count <= 20]\<close>\<close>

definition low_freq_of :: "(string \<times> int) list \<Rightarrow> string list" where
  "low_freq_of counts = map fst (filter (\<lambda>(string, count). count \<le> 20) counts)"

subsection \<open>Moving the low-frequency rows out of the sample\<close>

text \<open>
  The loop over \<open>enumerate(sample_sheet.iter_rows(min_row=2), start=2)\<close>: the state is
  the new low-frequency sheet, \<open>rows_to_remove\<close> and \<open>lf_rows_count\<close>. The guard of
  its body is \<open>row[2].value and str(row[2].value) in low_freq_strings\<close>.
\<close>

definition is_low_freq_row :: "string list \<Rightarrow> row \<Rightarrow> bool" where
  "is_low_freq_row low_freq_strings r =
     (truthy (col_C r) \<and> py_str (col_C r) \<in> set low_freq_strings)"

definition scan_sample :: "string list \<Rightarrow> sheet \<Rightarrow> sheet \<times> nat list \<times> int" where
  "scan_sample low_freq_strings sample_sheet =
     fold (\<lambda>(i, r) (lf_sheet, rows_to_remove, lf_rows_count).
             if is_low_freq_row low_freq_strings r
             then (lf_sheet @ [r], rows_to_remove @ [i], lf_rows_count + 1)
             else (lf_sheet, rows_to_remove, lf_rows_count))
          (enumerate 2 sample_sheet) ([], [], 0)"

text \<open>
  \<open>sheet.delete_rows(idx)\<close> removes worksheet row \<open>idx\<close> and moves the rows below it
  up. Worksheet row 1 is the header, so worksheet row \<open>idx\<close> is the data row at list
  position \<open>idx - 2\<close>; an index below the data or past the last row removes nothing.
\<close>

definition delete_rows :: "sheet \<Rightarrow> nat \<Rightarrow> sheet" where
  "delete_rows sh idx = (if idx < 2 then sh else take (idx - 2) sh @ drop (idx - 1) sh)"

text \<open>\<open>for row_idx in sorted(rows_to_remove, reverse=True): sample_sheet.delete_rows(row_idx)\<close>\<close>

definition remove_rows :: "nat list \<Rightarrow> sheet \<Rightarrow> sheet" where
  "remove_rows rows_to_remove sample_sheet =
     fold (\<lambda>row_idx sh. delete_rows sh row_idx) (rev (sort rows_to_remove)) sample_sheet"

subsection \<open>The per-sheet results\<close>

text \<open>
  \<open>results[sheet_name]\<close> is a dict: \<open>total_rows\<close> and \<open>low_freq_strings\<close> are always
  set, the other keys only when the sheet has a sample sheet. Counts are Python integers,
  the estimates Python floats, read here as real numbers.
\<close>

record estimate =
  total_lf_rows :: int
  total_hf_rows :: int
  low_freq_metaphors :: int
  sample_remaining_rows :: int
  sample_metaphors :: int
  hf_estimated_metaphors :: real
  final_estimate_excluding_extra :: real

record sheet_result =
  total_rows :: int
  low_freq_strings :: "string list"
  sample_part :: "estimate option"

text \<open>
  Lines 74 to 126 of \<open>process_workbook\<close>: from the row count of the regular sheet, its
  low-frequency strings and the sample sheet to the low-frequency sheet, the reduced
  sample sheet and the counts.
\<close>

definition process_sample :: "int \<Rightarrow> string list \<Rightarrow> sheet \<Rightarrow> sheet \<times> sheet \<times> estimate" where
  "process_sample row_count lfs sample_sheet =
     (let (lf_sheet, rows_to_remove, lf_rows_count) = scan_sample lfs sample_sheet;
          lf_metaphor_count = count_metaphors lf_sheet;
          sample_sheet' = remove_rows rows_to_remove sample_sheet;
          sample_remaining = int (length sample_sheet');
          sample_metaphor_count = count_metaphors sample_sheet';
          hf_estimated =
            (if sample_remaining > 0
             then (real_of_int sample_metaphor_count / real_of_int sample_remaining)
                    * real_of_int row_count
             else 0)
      in (lf_sheet, sample_sheet',
          \<lparr>total_lf_rows = lf_rows_count,
           total_hf_rows = row_count - lf_rows_count,
           low_freq_metaphors = lf_metaphor_count,
           sample_remaining_rows = sample_remaining,
           sample_metaphors = sample_metaphor_count,
           hf_estimated_metaphors = hf_estimated,
           final_estimate_excluding_extra = hf_estimated + real_of_int lf_metaphor_count\<rparr>))"

subsection \<open>The workbook\<close>

text \<open>
  A workbook is the list of its named sheets in \<open>workbook.sheetnames\<close> order.
  \<open>del workbook[name]\<close> drops a sheet, \<open>create_sheet\<close> adds an empty one at the end.
\<close>

type_synonym workbook = "(string \<times> sheet) list"

definition sheetnames :: "workbook \<Rightarrow> string list" where
  "sheetnames wb = map fst wb"

definition del_sheet :: "string \<Rightarrow> workbook \<Rightarrow> workbook" where
  "del_sheet name wb = filter (\<lambda>(n, sh). n \<noteq> name) wb"

definition set_sheet :: "string \<Rightarrow> sheet \<Rightarrow> workbook \<Rightarrow> workbook" where
  "set_sheet name sh wb = map (\<lambda>(n, old). if n = name then (n, sh) else (n, old)) wb"

definition endswith :: "string \<Rightarrow> string \<Rightarrow> bool" where
  "endswith s suffix =
     (length suffix \<le> length s \<and> drop (length s - length suffix) s = suffix)"

fun contains :: "string \<Rightarrow> string \<Rightarrow> bool" where
  "contains [] sub = (sub = [])"
| "contains (c # rest) sub = (take (length sub) (c # rest) = sub \<or> contains rest sub)"

definition extra_metaphor_count :: "workbook \<Rightarrow> int" where
  "extra_metaphor_count wb =
     (case map_of wb ''extra'' of None \<Rightarrow> 0 | Some extra_sheet \<Rightarrow> count_metaphors extra_sheet)"

definition regular_sheets :: "workbook \<Rightarrow> string list" where
  "regular_sheets wb =
     filter (\<lambda>name. \<not> endswith name ''_20%'' \<and> name \<noteq> ''Coding List''
                     \<and> name \<noteq> ''Coding Lists'' \<and> name \<noteq> ''Coding_lists''
                     \<and> name \<noteq> ''extra'' \<and> \<not> endswith name ''_lf'')
            (sheetnames wb)"

text \<open>
  The body of \<open>for sheet_name in regular_sheets\<close>. The names come from
  \<open>workbook.sheetnames\<close>, and no regular sheet is deleted by the loop (only sheets whose
  name ends in \<open>_lf\<close> are), so \<open>workbook[sheet_name]\<close> finds its sheet.
\<close>

definition process_sheet ::
  "string \<Rightarrow> (string \<times> sheet_result) list \<times> workbook \<Rightarrow> (string \<times> sheet_result) list \<times> workbook"
where
  "process_sheet sheet_name st =
     (let (results, wb) = st in
      if contains (lower sheet_name) ''coding list'' then (results, wb)
      else
        (case map_of wb sheet_name of
           None \<Rightarrow> (results, wb)
         | Some sh \<Rightarrow>
            (let row_count = int (length sh);
                 lfs = low_freq_of (string_counts sh);
                 sample_sheet_name = sheet_name @ ''_20%''
             in case map_of wb sample_sheet_name of
                  None \<Rightarrow>
                    (results @ [(sheet_name,
                       \<lparr>total_rows = row_count, low_freq_strings = lfs, sample_part = None\<rparr>)],
                     wb)
                | Some sample_sheet \<Rightarrow>
                    (let lf_sheet_name = sheet_name @ ''_lf'';
                         (lf_sheet, sample_sheet', est) = process_sample row_count lfs sample_sheet
                     in (results @ [(sheet_name,
                           \<lparr>total_rows = row_count, low_freq_strings = lfs,
                            sample_part = Some est\<rparr>)],
                         set_sheet sample_sheet_name sample_sheet'
                           (del_sheet lf_sheet_name wb @ [(lf_sheet_name, lf_sheet)]))))))"

record results =
  extra_metaphors :: int
  sheets :: "(string \<times> sheet_result) list"
  hf_estimated_metaphors_total :: real
  final_estimate_total :: real

text \<open>
  \<open>process_workbook\<close> without the file reading and writing: the results and the workbook
  that is saved. The results dict holds the entries of the sheets beside three keys of its
  own (\<open>extra_metaphors\<close> and the two totals); they are separate fields here, no sheet
  of the workbooks being named like one of these keys. \<open>sheet_data.get(key, 0)\<close> is 0
  for a sheet without a sample sheet.
\<close>

definition process_workbook :: "workbook \<Rightarrow> results \<times> workbook" where
  "process_workbook workbook =
     (let extra = extra_metaphor_count workbook;
          (per_sheet, wb') = fold process_sheet (regular_sheets workbook) ([], workbook);
          total_hf_estimated =
            sum_list (map (\<lambda>(name, d). case sample_part d of None \<Rightarrow> 0
                                          | Some e \<Rightarrow> hf_estimated_metaphors e) per_sheet);
          total_lf_metaphors =
            sum_list (map (\<lambda>(name, d). case sample_part d of None \<Rightarrow> 0
                                          | Some e \<Rightarrow> low_freq_metaphors e) per_sheet)
      in (\<lparr>extra_metaphors = extra, sheets = per_sheet,
           hf_estimated_metaphors_total = total_hf_estimated,
           final_estimate_total = total_hf_estimated + real_of_int total_lf_metaphors
                                    + real_of_int extra\<rparr>,
          wb'))"

subsection \<open>Notions of the specification\<close>

text \<open>
  The number of rows of a sheet whose identity cell (column C) holds the string \<open>s\<close>,
  and the metaphor rule in the specification's words: the annotation, upper-cased, is
  \<open>Y\<close> or \<open>O\<close>; an empty cell is no metaphor.
\<close>

definition occurrences :: "string \<Rightarrow> sheet \<Rightarrow> nat" where
  "occurrences s sh = length (filter (\<lambda>r. col_C r = Some s) sh)"

definition spec_metaphor :: "row \<Rightarrow> bool" where
  "spec_metaphor r =
     (case col_E r of None \<Rightarrow> False | Some a \<Rightarrow> upper a = ''Y'' \<or> upper a = ''O'')"

section \<open>Errors\<close>

text \<open>
  The exceptions the scripts can raise, as values: a result is \<open>Inl\<close> of the exception
  or \<open>Inr\<close> of the value. \<open>ValueError\<close> carries its message, \<open>KeyError\<close> the key.
\<close>

datatype py_error = ValueError string | ZeroDivisionError | KeyError string

fun bind_result :: "py_error + 'a \<Rightarrow> ('a \<Rightarrow> py_error + 'b) \<Rightarrow> py_error + 'b" where
  "bind_result (Inl e) f = Inl e"
| "bind_result (Inr x) f = f x"

section \<open>The sampler (06\_takeasampleoftypes.py)\<close>

text \<open>
  \<open>rows_by_value\<close> is a dict from the lower-cased string of column C to the rows with
  that key, in insertion order; \<open>add_row\<close> is the loop body (create the empty list for a
  new key, then append).
\<close>

fun add_row :: "string \<Rightarrow> row \<Rightarrow> (string \<times> row list) list \<Rightarrow> (string \<times> row list) list" where
  "add_row key r [] = [(key, [] @ [r])]"
| "add_row key r ((k, rows) # groups) =
     (if key = k then (k, rows @ [r]) # groups else (k, rows) # add_row key r groups)"

definition rows_by_value :: "sheet \<Rightarrow> (string \<times> row list) list" where
  "rows_by_value worksheet =
     fold (\<lambda>r groups. add_row (lower (py_str (col_C r))) r groups) worksheet []"

text \<open>
  The random module is not part of the scripts. A random source is a state \<open>'g\<close> with a
  function that, for a population size \<open>n\<close> and a sample size \<open>k\<close>, yields the chosen
  positions and the next state. \<open>random.sample\<close> chooses \<open>k\<close> different positions of
  the population; \<open>sound_source\<close> says so of a source. \<open>random.sample\<close> raises
  \<open>ValueError\<close> for a negative sample size or one above the population's.
\<close>

type_synonym 'g random_source = "'g \<Rightarrow> nat \<Rightarrow> nat \<Rightarrow> nat list \<times> 'g"

definition sound_source :: "'g random_source \<Rightarrow> bool" where
  "sound_source draw =
     (\<forall>g n k. k \<le> n \<longrightarrow>
        length (fst (draw g n k)) = k \<and> distinct (fst (draw g n k))
        \<and> set (fst (draw g n k)) \<subseteq> {..<n})"

definition random_sample ::
  "'g random_source \<Rightarrow> 'g \<Rightarrow> 'a list \<Rightarrow> int \<Rightarrow> py_error + ('a list \<times> 'g)" where
  "random_sample draw g population k =
     (if k < 0 \<or> int (length population) < k
      then Inl (ValueError ''Sample larger than population or is negative'')
      else (case draw g (length population) (nat k) of
              (positions, g') \<Rightarrow> Inr (map (\<lambda>i. population ! i) positions, g')))"

text \<open>\<open>int(x)\<close> of a float truncates towards zero.\<close>

definition py_int :: "real \<Rightarrow> int" where
  "py_int x = (if 0 \<le> x then \<lfloor>x\<rfloor> else \<lceil>x\<rceil>)"

text \<open>
  The body of \<open>for key, rows in rows_by_value.items()\<close>. The script writes the two
  numbers as the literals 20 and 0.2; they are arguments here, and \<open>take_sample\<close> below
  is the script, with the literals. The float product \<open>len(rows) * 0.2\<close> is read as the
  exact product with one fifth; its truncation is the same integer for every number of
  rows a worksheet can hold (at most 1,048,576).
\<close>

definition sample_group ::
  "int \<Rightarrow> real \<Rightarrow> 'g random_source \<Rightarrow> 'g \<Rightarrow> row list \<Rightarrow> py_error + (row list \<times> 'g)" where
  "sample_group min_group_size fraction draw g rows =
     (if int (length rows) < min_group_size then Inr (rows, g)
      else (let sample_size = max 1 (py_int (real (length rows) * fraction))
            in random_sample draw g rows sample_size))"

text \<open>
  The loop over the groups: the rows sampled from each group, in the order of the
  groups. An exception ends the script before anything is written.
\<close>

fun sample_groups ::
  "int \<Rightarrow> real \<Rightarrow> 'g random_source \<Rightarrow> 'g \<Rightarrow> (string \<times> row list) list
     \<Rightarrow> py_error + (row list list \<times> 'g)" where
  "sample_groups min_group_size fraction draw g [] = Inr ([], g)"
| "sample_groups min_group_size fraction draw g ((key, rows) # groups) =
     bind_result (sample_group min_group_size fraction draw g rows)
       (\<lambda>(sampled_rows, g').
          bind_result (sample_groups min_group_size fraction draw g' groups)
            (\<lambda>(rest, g''). Inr (sampled_rows # rest, g'')))"

text \<open>
  The whole loop, the sampled rows appended to the new worksheet in turn, and the script:
  the data rows of the new worksheet \<open><name>_20%\<close>.
\<close>

definition take_sample_with ::
  "int \<Rightarrow> real \<Rightarrow> 'g random_source \<Rightarrow> 'g \<Rightarrow> sheet \<Rightarrow> py_error + (sheet \<times> 'g)" where
  "take_sample_with min_group_size fraction draw g worksheet =
     bind_result (sample_groups min_group_size fraction draw g (rows_by_value worksheet))
       (\<lambda>(sampled, g'). Inr (concat sampled, g'))"

definition take_sample :: "'g random_source \<Rightarrow> 'g \<Rightarrow> sheet \<Rightarrow> py_error + (sheet \<times> 'g)" where
  "take_sample draw g worksheet = take_sample_with 20 (1 / 5) draw g worksheet"

text \<open>A source for examples: it always chooses the first \<open>k\<close> positions.\<close>

definition first_rows :: "unit random_source" where
  "first_rows g n k = ([0 ..< k], g)"

text \<open>
  Sampling coverage in the specification's words, for one group and the rows sampled from
  it: a group of fewer than 20 rows is kept whole; of a larger group
  \<open>max(1, floor(size * 0.2))\<close> rows are taken, no row more often than the group has it.
\<close>

definition coverage :: "row list \<Rightarrow> row list \<Rightarrow> bool" where
  "coverage rows sampled_rows =
     (if length rows < 20 then sampled_rows = rows
      else int (length sampled_rows) = max 1 \<lfloor>real (length rows) * (1 / 5)\<rfloor>
           \<and> mset sampled_rows \<subseteq># mset rows)"

section \<open>Significance and effect size (08\_calculatingsignificanceandeffect.py)\<close>

text \<open>
  The input table: one row per vehicle group with its raw counts and relative
  frequencies (per 1,000 words) in the two corpora. Python floats are read as real
  numbers: rounding, infinities and NaN are outside the model. \<open>math.log\<close> and
  \<open>math.log2\<close> raise \<open>ValueError\<close> outside their domain, and a float division by zero
  raises \<open>ZeroDivisionError\<close>.
\<close>

record vehicle_row =
  Vehicle_group :: string
  SSC_Raw :: real
  SSC_RF :: real
  LEC_Raw :: real
  LEC_RF :: real

type_synonym dataframe = "vehicle_row list"

definition math_log :: "real \<Rightarrow> py_error + real" where
  "math_log x = (if 0 < x then Inr (ln x) else Inl (ValueError ''math domain error''))"

definition math_log2 :: "real \<Rightarrow> py_error + real" where
  "math_log2 x = (if 0 < x then Inr (log 2 x) else Inl (ValueError ''math domain error''))"

definition py_div :: "real \<Rightarrow> real \<Rightarrow> py_error + real" where
  "py_div x y = (if y = 0 then Inl ZeroDivisionError else Inr (x / y))"

text \<open>\<open>df["Vehicle_group"].astype(str).str.upper() == "TOTALS"\<close>\<close>

definition is_totals :: "vehicle_row \<Rightarrow> bool" where
  "is_totals r = (upper (Vehicle_group r) = ''TOTALS'')"

definition infer_corpus_sizes_from_totals :: "dataframe \<Rightarrow> py_error + (real \<times> real)" where
  "infer_corpus_sizes_from_totals df =
     (case filter is_totals df of
        [] \<Rightarrow> Inl (ValueError ''No TOTALS row found.'')
      | totals # _ \<Rightarrow>
          (let ssc_total_rf = SSC_RF totals;
               lec_total_rf = LEC_RF totals;
               ssc_total_raw = SSC_Raw totals;
               lec_total_raw = LEC_Raw totals
           in if ssc_total_rf \<le> 0 \<or> lec_total_rf \<le> 0
              then Inl (ValueError ''TOTALS RF values must be > 0 to infer corpus size.'')
              else bind_result (py_div 1000 ssc_total_rf) (\<lambda>ssc_per.
                   bind_result (py_div 1000 lec_total_rf) (\<lambda>lec_per.
                     Inr (ssc_total_raw * ssc_per, lec_total_raw * lec_per)))))"

text \<open>
  One guarded summand of \<open>g2_log_likelihood\<close>:
  \<open>if e > 0 and o > 0: g2 += o * math.log(o / e)\<close>.
\<close>

definition add_cell :: "real \<Rightarrow> real \<Rightarrow> real \<Rightarrow> py_error + real" where
  "add_cell g2 obs e =
     (if e > 0 \<and> obs > 0
      then bind_result (py_div obs e) (\<lambda>q.
           bind_result (math_log q) (\<lambda>lg. Inr (g2 + obs * lg)))
      else Inr g2)"

definition g2_log_likelihood :: "real \<Rightarrow> real \<Rightarrow> real \<Rightarrow> real \<Rightarrow> py_error + real" where
  "g2_log_likelihood a b ssc_words lec_words =
     (let c = ssc_words - a;
          d = lec_words - b;
          total_words = ssc_words + lec_words
      in if total_words \<le> 0 then Inr 0
         else
          (let e1 = (a + b) * ssc_words / total_words;
               e2 = (a + b) * lec_words / total_words;
               e3 = (c + d) * ssc_words / total_words;
               e4 = (c + d) * lec_words / total_words
           in bind_result (add_cell 0 a e1) (\<lambda>g2.
              bind_result (add_cell g2 b e2) (\<lambda>g2.
              bind_result (add_cell g2 c e3) (\<lambda>g2.
              bind_result (add_cell g2 d e4) (\<lambda>g2. Inr (2 * g2)))))))"

definition log_ratio_log2 :: "real \<Rightarrow> real \<Rightarrow> real \<Rightarrow> py_error + real" where
  "log_ratio_log2 ssc_rf lec_rf zero_floor =
     (let s = ssc_rf; l = lec_rf
      in if s > 0 \<and> l > 0 then bind_result (py_div s l) math_log2
         else if s > 0 \<and> l \<le> 0 then bind_result (py_div s zero_floor) math_log2
         else if s \<le> 0 \<and> l > 0
           then bind_result (py_div l zero_floor) (\<lambda>q.
                bind_result (math_log2 q) (\<lambda>x. Inr (- x)))
         else Inr 0)"

definition p_to_marker :: "real \<Rightarrow> string" where
  "p_to_marker p =
     (if p < 1 / 10000 then ''****''
      else if p < 1 / 1000 then ''***''
      else if p < 5 / 100 then ''*''
      else ''ns'')"

text \<open>
  The first step of \<open>calculate_statistics\<close>: when an argument is missing
  (\<open>ssc_words is None or lec_words is None\<close>) both sizes are inferred from the TOTALS
  row, and sizes that are not positive are refused.
\<close>

definition corpus_sizes :: "dataframe \<Rightarrow> real option \<Rightarrow> real option \<Rightarrow> py_error + (real \<times> real)" where
  "corpus_sizes df ssc_words lec_words =
     bind_result
       (case (ssc_words, lec_words) of
          (Some ssc, Some lec) \<Rightarrow> Inr (ssc, lec)
        | _ \<Rightarrow> infer_corpus_sizes_from_totals df)
       (\<lambda>(ssc_words, lec_words).
          if ssc_words \<le> 0 \<or> lec_words \<le> 0
          then Inl (ValueError ''Corpus sizes must be > 0.'')
          else Inr (ssc_words, lec_words))"

text \<open>
  A row of the result table, without the interpretation text, the formatted p-value and
  the rounding to two decimals, which are presentation. The survival function of the
  chi-square distribution (\<open>scipy.stats.chi2.sf\<close> with one degree of freedom) is an
  argument.
\<close>

record stat_row = vehicle_row +
  Log_Likelihood :: real
  p_value :: real
  Significant :: bool
  Sig_Marker :: string
  Log_Ratio :: real

definition row_statistics ::
  "(real \<Rightarrow> real) \<Rightarrow> real \<Rightarrow> real \<Rightarrow> string \<Rightarrow> vehicle_row \<Rightarrow> py_error + stat_row" where
  "row_statistics chi2_sf ssc_words lec_words vg row =
     (let a = SSC_Raw row; b = LEC_Raw row; ssc_rf = SSC_RF row; lec_rf = LEC_RF row
      in bind_result (g2_log_likelihood a b ssc_words lec_words) (\<lambda>g2.
           let p = min (chi2_sf g2) (9999 / 10000)
           in bind_result (log_ratio_log2 ssc_rf lec_rf (1 / 100000)) (\<lambda>lr.
                Inr \<lparr>Vehicle_group = vg, SSC_Raw = a, SSC_RF = ssc_rf, LEC_Raw = b,
                     LEC_RF = lec_rf, Log_Likelihood = g2, p_value = p,
                     Significant = (p < 5 / 100), Sig_Marker = p_to_marker p,
                     Log_Ratio = lr\<rparr>)))"

text \<open>The loop \<open>for _, row in df.iterrows()\<close>, which skips the TOTALS rows.\<close>

fun group_statistics ::
  "(real \<Rightarrow> real) \<Rightarrow> real \<Rightarrow> real \<Rightarrow> dataframe \<Rightarrow> py_error + stat_row list" where
  "group_statistics chi2_sf ssc_words lec_words [] = Inr []"
| "group_statistics chi2_sf ssc_words lec_words (row # df) =
     (if is_totals row then group_statistics chi2_sf ssc_words lec_words df
      else bind_result (row_statistics chi2_sf ssc_words lec_words (Vehicle_group row) row)
             (\<lambda>r. bind_result (group_statistics chi2_sf ssc_words lec_words df)
                (\<lambda>results. Inr (r # results))))"

text \<open>
  The end of \<open>calculate_statistics\<close>: \<open>out = pd.DataFrame(results)\<close> and the formatting
  of its columns. A data frame made from an empty list has no columns, so
  \<open>out["p_value"]\<close> raises \<open>KeyError\<close>; otherwise the table is returned.
\<close>

definition result_table :: "stat_row list \<Rightarrow> py_error + stat_row list" where
  "result_table results = (if results = [] then Inl (KeyError ''p_value'') else Inr results)"

definition calculate_statistics ::
  "(real \<Rightarrow> real) \<Rightarrow> dataframe \<Rightarrow> real option \<Rightarrow> real option \<Rightarrow> py_error + stat_row list" where
  "calculate_statistics chi2_sf df ssc_words lec_words =
     bind_result (corpus_sizes df ssc_words lec_words) (\<lambda>(ssc_words, lec_words).
     bind_result (group_statistics chi2_sf ssc_words lec_words df) (\<lambda>results.
       case filter is_totals df of
         [] \<Rightarrow> result_table results
       | t # _ \<Rightarrow>
           bind_result (row_statistics chi2_sf ssc_words lec_words ''TOTALS'' t)
             (\<lambda>totals_row. result_table (results @ [totals_row]))))"

text \<open>
  The statistic in the specification's words: twice the sum over the four cells of
  observed times the logarithm of observed over expected, a cell with observed value 0
  counting 0.
\<close>

definition spec_cell :: "real \<Rightarrow> real \<Rightarrow> real" where
  "spec_cell obs e = (if obs = 0 then 0 else obs * ln (obs / e))"

definition spec_g2 :: "real \<Rightarrow> real \<Rightarrow> real \<Rightarrow> real \<Rightarrow> real" where
  "spec_g2 a b ssc_words lec_words =
     (let c = ssc_words - a;
          d = lec_words - b;
          total_words = ssc_words + lec_words
      in 2 * (spec_cell a ((a + b) * ssc_words / total_words)
            + spec_cell b ((a + b) * lec_words / total_words)
            + spec_cell c ((c + d) * ssc_words / total_words)
            + spec_cell d ((c + d) * lec_words / total_words)))"

section \<open>Properties of the frequency and estimate script\<close>

subsection \<open>Counting metaphors\<close>

lemma fold_count_metaphors:
  "fold (\<lambda>r n. if is_metaphor r then n + 1 else n) rows k
     = k + int (length (filter is_metaphor rows))"
  by (induction rows arbitrary: k) auto

lemma count_metaphors_filter: "count_metaphors rows = int (length (filter is_metaphor rows))"
  by (simp add: count_metaphors_def fold_count_metaphors)

lemma upper_char_Y: "upper_char c = CHR ''Y'' \<longleftrightarrow> c = CHR ''Y'' \<or> c = CHR ''y''"
  by (simp add: upper_char_def)

lemma upper_char_O: "upper_char c = CHR ''O'' \<longleftrightarrow> c = CHR ''O'' \<or> c = CHR ''o''"
  by (simp add: upper_char_def)

lemma upper_Y: "upper s = ''Y'' \<longleftrightarrow> s = ''Y'' \<or> s = ''y''"
  by (cases s) (auto simp: upper_def upper_char_Y)

lemma upper_O: "upper s = ''O'' \<longleftrightarrow> s = ''O'' \<or> s = ''o''"
  by (cases s) (auto simp: upper_def upper_char_O)

lemma is_metaphor_spec: "is_metaphor r = spec_metaphor r"
  by (cases "col_E r") (auto simp: is_metaphor_def spec_metaphor_def truthy_def py_str_def upper_def)

subsection \<open>The occurrence counts\<close>

lemma keys_increment:
  "map fst (increment k kvs) = (if k \<in> fst ` set kvs then map fst kvs else map fst kvs @ [k])"
  by (induction kvs) (force+)

lemma distinct_increment: "distinct (map fst kvs) \<Longrightarrow> distinct (map fst (increment k kvs))"
  by (simp add: keys_increment)

lemma map_of_increment:
  "map_of (increment k kvs) k' =
     (if k' = k then Some (case map_of kvs k of None \<Rightarrow> 1 | Some n \<Rightarrow> n + 1)
      else map_of kvs k')"
  by (induction kvs) auto

lemma distinct_fold_count:
  "distinct (map fst acc) \<Longrightarrow> distinct (map fst (fold count_string sh acc))"
  by (induction sh arbitrary: acc) (auto simp: count_string_def distinct_increment)

lemma map_of_fold_count:
  "map_of (fold count_string sh acc) s =
     (if s \<noteq> [] \<and> 0 < occurrences s sh
      then Some ((case map_of acc s of None \<Rightarrow> 0 | Some n \<Rightarrow> n) + int (occurrences s sh))
      else map_of acc s)"
proof (induction sh arbitrary: acc)
  case Nil
  then show ?case by (simp add: occurrences_def)
next
  case (Cons r sh)
  show ?case
  proof (cases "truthy (col_C r)")
    case False
    then have "col_C r \<noteq> Some s \<or> s = []" by (auto simp: truthy_def)
    then show ?thesis using False Cons[of acc]
      by (auto simp: count_string_def occurrences_def)
  next
    case True
    then obtain t where t: "col_C r = Some t" "t \<noteq> []"
      by (auto simp: truthy_def split: option.splits)
    then show ?thesis using True Cons[of "increment t acc"]
      by (auto simp: count_string_def occurrences_def py_str_def map_of_increment
               split: option.splits)
  qed
qed

lemma map_of_string_counts:
  "map_of (string_counts sh) s =
     (if s \<noteq> [] \<and> 0 < occurrences s sh then Some (int (occurrences s sh)) else None)"
  by (simp add: string_counts_def map_of_fold_count)

lemma distinct_string_counts: "distinct (map fst (string_counts sh))"
  by (simp add: string_counts_def distinct_fold_count)

lemma low_freq_of_iff:
  "distinct (map fst counts) \<Longrightarrow>
   s \<in> set (low_freq_of counts) \<longleftrightarrow> (\<exists>c. map_of counts s = Some c \<and> c \<le> 20)"
  by (auto simp: low_freq_of_def image_iff)

lemma low_freq_strings_iff:
  "s \<in> set (low_freq_of (string_counts sh)) \<longleftrightarrow>
     s \<noteq> [] \<and> 0 < occurrences s sh \<and> occurrences s sh \<le> 20"
  by (simp add: low_freq_of_iff[OF distinct_string_counts] map_of_string_counts)

subsection \<open>Scanning the sample and deleting rows\<close>

lemma scan_sample_Nil: "scan_sample lfs [] = ([], [], 0)"
  by (simp add: scan_sample_def)

lemma scan_sample_snoc:
  "scan_sample lfs (xs @ [x]) =
     (case scan_sample lfs xs of (lf, rm, c) \<Rightarrow>
        if is_low_freq_row lfs x then (lf @ [x], rm @ [length xs + 2], c + 1) else (lf, rm, c))"
proof -
  obtain lf rm c where sc: "scan_sample lfs xs = (lf, rm, c)"
    by (cases "scan_sample lfs xs") auto
  then show ?thesis
    by (simp add: scan_sample_def enumerate_append_eq)
qed

lemma scan_sample_lf: "fst (scan_sample lfs xs) = filter (is_low_freq_row lfs) xs"
  by (induction xs rule: rev_induct)
     (auto simp: scan_sample_Nil scan_sample_snoc split: prod.splits)

lemma scan_sample_count:
  "snd (snd (scan_sample lfs xs)) = int (length (filter (is_low_freq_row lfs) xs))"
  by (induction xs rule: rev_induct)
     (auto simp: scan_sample_Nil scan_sample_snoc split: prod.splits)

lemma scan_sample_idx_range:
  "i \<in> set (fst (snd (scan_sample lfs xs))) \<Longrightarrow> 2 \<le> i \<and> i < length xs + 2"
  by (induction xs rule: rev_induct)
     (auto simp: scan_sample_Nil scan_sample_snoc split: prod.splits if_splits)

lemma scan_sample_idx_sorted: "sorted_wrt (<) (fst (snd (scan_sample lfs xs)))"
proof (induction xs rule: rev_induct)
  case Nil
  then show ?case by (simp add: scan_sample_Nil)
next
  case (snoc x xs)
  then show ?case
    using scan_sample_idx_range[of _ lfs xs]
    by (auto simp: scan_sample_snoc sorted_wrt_append split: prod.splits)
qed

lemma delete_rows_append:
  "2 \<le> i \<Longrightarrow> i < length xs + 2 \<Longrightarrow> delete_rows (xs @ ys) i = delete_rows xs i @ ys"
  by (simp add: delete_rows_def)

lemma length_delete_rows:
  "2 \<le> i \<Longrightarrow> i < length xs + 2 \<Longrightarrow> length (delete_rows xs i) = length xs - 1"
  by (auto simp: delete_rows_def)

lemma delete_rows_last: "delete_rows (xs @ [x]) (Suc (Suc (length xs))) = xs"
  by (simp add: delete_rows_def)

text \<open>
  Deleting from the bottom up never disturbs the rows still to be deleted: the deletions
  inside a prefix of the sheet leave everything after the prefix alone.
\<close>

lemma fold_delete_append:
  "sorted_wrt (>) js \<Longrightarrow> (\<forall>j\<in>set js. 2 \<le> j \<and> j < length xs + 2) \<Longrightarrow>
   fold (\<lambda>j sh. delete_rows sh j) js (xs @ ys) = fold (\<lambda>j sh. delete_rows sh j) js xs @ ys"
proof (induction js arbitrary: xs)
  case Nil
  then show ?case by simp
next
  case (Cons j js)
  have j: "2 \<le> j" "j < length xs + 2" using Cons.prems by auto
  have "\<forall>k\<in>set js. 2 \<le> k \<and> k < length (delete_rows xs j) + 2"
    using Cons.prems j by (auto simp: length_delete_rows)
  moreover have "sorted_wrt (>) js" using Cons.prems by simp
  ultimately show ?case
    using Cons.IH[of "delete_rows xs j"] j by (simp add: delete_rows_append)
qed

lemma remove_rows_scan:
  "remove_rows (fst (snd (scan_sample lfs xs))) xs = filter (\<lambda>r. \<not> is_low_freq_row lfs r) xs"
proof -
  have srt: "sort (fst (snd (scan_sample lfs xs))) = fst (snd (scan_sample lfs xs))"
    using scan_sample_idx_sorted[of lfs xs]
    by (simp add: sorted_sort_id strict_sorted_imp_sorted)
  have "fold (\<lambda>j sh. delete_rows sh j) (rev (fst (snd (scan_sample lfs xs)))) xs
          = filter (\<lambda>r. \<not> is_low_freq_row lfs r) xs"
  proof (induction xs rule: rev_induct)
    case Nil
    then show ?case by (simp add: scan_sample_Nil)
  next
    case (snoc x xs)
    obtain lf rm c where sc: "scan_sample lfs xs = (lf, rm, c)"
      by (cases "scan_sample lfs xs") auto
    have rm: "rm = fst (snd (scan_sample lfs xs))" using sc by simp
    show ?case
    proof (cases "is_low_freq_row lfs x")
      case True
      then show ?thesis using snoc sc by (simp add: scan_sample_snoc delete_rows_last)
    next
      case False
      have "sorted_wrt (>) (rev rm)"
        using scan_sample_idx_sorted[of lfs xs] rm by (simp add: sorted_wrt_rev)
      moreover have "\<forall>j\<in>set (rev rm). 2 \<le> j \<and> j < length xs + 2"
        using scan_sample_idx_range[of _ lfs xs] rm by auto
      ultimately have "fold (\<lambda>j sh. delete_rows sh j) (rev rm) (xs @ [x])
          = fold (\<lambda>j sh. delete_rows sh j) (rev rm) xs @ [x]"
        by (rule fold_delete_append)
      then show ?thesis using False snoc sc by (simp add: scan_sample_snoc)
    qed
  qed
  then show ?thesis by (simp add: remove_rows_def srt)
qed

text \<open>What \<open>process_sample\<close> returns, with every loop replaced by its closed form.\<close>

lemma process_sample_eq:
  "process_sample row_count lfs smp =
     (let lf = filter (is_low_freq_row lfs) smp;
          red = filter (\<lambda>r. \<not> is_low_freq_row lfs r) smp;
          hf = (if red \<noteq> []
                then (real_of_int (count_metaphors red) / real (length red))
                       * real_of_int row_count
                else 0)
      in (lf, red,
          \<lparr>total_lf_rows = int (length lf),
           total_hf_rows = row_count - int (length lf),
           low_freq_metaphors = count_metaphors lf,
           sample_remaining_rows = int (length red),
           sample_metaphors = count_metaphors red,
           hf_estimated_metaphors = hf,
           final_estimate_excluding_extra = hf + real_of_int (count_metaphors lf)\<rparr>))"
proof -
  obtain lf rm c where sc: "scan_sample lfs smp = (lf, rm, c)"
    by (cases "scan_sample lfs smp") auto
  have lf: "lf = filter (is_low_freq_row lfs) smp"
    using scan_sample_lf[of lfs smp] sc by simp
  have c: "c = int (length (filter (is_low_freq_row lfs) smp))"
    using scan_sample_count[of lfs smp] sc by simp
  have rm: "remove_rows rm smp = filter (\<lambda>r. \<not> is_low_freq_row lfs r) smp"
    using remove_rows_scan[of lfs smp] sc by simp
  show ?thesis
    by (simp add: process_sample_def sc rm Let_def) (simp add: lf c)
qed

subsection \<open>The metaphor rule\<close>

lemma spec_metaphor_iff:
  "spec_metaphor r \<longleftrightarrow> col_E r \<in> {Some ''Y'', Some ''y'', Some ''O'', Some ''o''}"
  by (cases "col_E r") (auto simp: spec_metaphor_def upper_Y upper_O)

lemma extra_metaphors_process_workbook:
  "extra_metaphors (fst (process_workbook wb)) = extra_metaphor_count wb"
  by (simp add: process_workbook_def Let_def split: prod.splits)

text \<open>
  Claim C9. A row counts as a metaphor exactly when its annotation cell (column E),
  upper-cased, is \<open>Y\<close> or \<open>O\<close>, that is when the cell holds one of \<open>Y\<close>, \<open>y\<close>, \<open>O\<close>,
  \<open>o\<close>; an empty cell and every other text count as no metaphor. The three counters of
  \<open>process_workbook\<close> (the \<open>extra\<close> sheet, the low-frequency sheet and the sample sheet
  after the removal) count the rows that satisfy this rule.
\<close>

theorem metaphor_detection_rule:
  "(is_metaphor r \<longleftrightarrow> spec_metaphor r)
   \<and> (spec_metaphor r \<longleftrightarrow> col_E r \<in> {Some ''Y'', Some ''y'', Some ''O'', Some ''o''})
   \<and> extra_metaphors (fst (process_workbook wb)) =
       (case map_of wb ''extra'' of None \<Rightarrow> 0
        | Some extra_sheet \<Rightarrow> int (length (filter spec_metaphor extra_sheet)))
   \<and> low_freq_metaphors (snd (snd (process_sample n lfs smp))) =
       int (length (filter spec_metaphor (fst (process_sample n lfs smp))))
   \<and> sample_metaphors (snd (snd (process_sample n lfs smp))) =
       int (length (filter spec_metaphor (fst (snd (process_sample n lfs smp)))))"
proof -
  have eq: "is_metaphor = spec_metaphor" by (rule ext) (rule is_metaphor_spec)
  have extra: "extra_metaphors (fst (process_workbook wb)) =
       (case map_of wb ''extra'' of None \<Rightarrow> 0
        | Some extra_sheet \<Rightarrow> int (length (filter spec_metaphor extra_sheet)))"
    by (simp add: extra_metaphors_process_workbook extra_metaphor_count_def
          count_metaphors_filter eq split: option.splits)
  have lf: "low_freq_metaphors (snd (snd (process_sample n lfs smp))) =
       int (length (filter spec_metaphor (fst (process_sample n lfs smp))))"
    by (simp add: process_sample_eq Let_def count_metaphors_filter eq)
  have sm: "sample_metaphors (snd (snd (process_sample n lfs smp))) =
       int (length (filter spec_metaphor (fst (snd (process_sample n lfs smp)))))"
    by (simp add: process_sample_eq Let_def count_metaphors_filter eq)
  show ?thesis using is_metaphor_spec[of r] spec_metaphor_iff[of r] extra lf sm by blast
qed

theorem metaphor_detection_rule_witness:
  "is_metaphor \<lparr>col_C = Some ''run'', col_E = Some ''o'', other_cells = []\<rparr>
   \<and> \<not> is_metaphor \<lparr>col_C = Some ''run'', col_E = Some ''N'', other_cells = []\<rparr>
   \<and> \<not> is_metaphor \<lparr>col_C = Some ''run'', col_E = None, other_cells = []\<rparr>
   \<and> sample_metaphors (snd (snd (process_sample 2 []
        [\<lparr>col_C = Some ''run'', col_E = Some ''y'', other_cells = []\<rparr>,
         \<lparr>col_C = Some ''run'', col_E = Some ''yes'', other_cells = []\<rparr>]))) = 1"
  using metaphor_detection_rule[of "\<lparr>col_C = Some ''run'', col_E = Some ''o'', other_cells = []\<rparr>"
          "[]" 2 "[]" "[\<lparr>col_C = Some ''run'', col_E = Some ''y'', other_cells = []\<rparr>,
         \<lparr>col_C = Some ''run'', col_E = Some ''yes'', other_cells = []\<rparr>]"]
        metaphor_detection_rule[of "\<lparr>col_C = Some ''run'', col_E = Some ''N'', other_cells = []\<rparr>"]
        metaphor_detection_rule[of "\<lparr>col_C = Some ''run'', col_E = None, other_cells = []\<rparr>"]
  by (simp add: process_sample_eq Let_def is_low_freq_row_def spec_metaphor_def upper_def upper_char_def)

subsection \<open>One regular sheet with its sample sheet\<close>

text \<open>
  The loop body of \<open>process_workbook\<close> for a regular sheet that has a sample sheet: the
  results entry and the two rewritten sheets are those of \<open>process_sample\<close>, run on the
  row count and the low-frequency strings of the regular sheet.
\<close>

lemma process_sheet_with_sample:
  assumes "\<not> contains (lower name) ''coding list''"
    and "map_of wb name = Some sh"
    and "map_of wb (name @ ''_20%'') = Some smp"
  shows "process_sheet name (res, wb) =
     (case process_sample (int (length sh)) (low_freq_of (string_counts sh)) smp of
        (lf_sheet, reduced, est) \<Rightarrow>
          (res @ [(name, \<lparr>total_rows = int (length sh),
                          low_freq_strings = low_freq_of (string_counts sh),
                          sample_part = Some est\<rparr>)],
           set_sheet (name @ ''_20%'') reduced
             (del_sheet (name @ ''_lf'') wb @ [(name @ ''_lf'', lf_sheet)])))"
  using assms by (simp add: process_sheet_def Let_def split: prod.splits)

subsection \<open>Partitioning\<close>

lemma falsy_iff: "\<not> truthy v \<longleftrightarrow> v = None \<or> v = Some ''''"
  by (auto simp: truthy_def split: option.splits)

lemma count_list_filter: "count_list (filter P xs) r = (if P r then count_list xs r else 0)"
  by (induction xs) auto

lemma low_freq_row_iff:
  "is_low_freq_row (low_freq_of (string_counts full)) r \<longleftrightarrow>
     (case col_C r of None \<Rightarrow> False
      | Some s \<Rightarrow> s \<noteq> [] \<and> 0 < occurrences s full \<and> occurrences s full \<le> 20)"
  by (cases "col_C r")
     (auto simp: is_low_freq_row_def truthy_def py_str_def low_freq_strings_iff)

text \<open>
  Claim C10. A row whose identity cell (column C) is empty (\<open>None\<close>) or the empty string
  adds nothing to the occurrence counts of the full sheet; in the sample sheet such a row
  is never moved to the low-frequency sheet, stays in the reduced sample as often as it
  occurred, and is counted in \<open>sample_remaining_rows\<close>, the number of rows of the reduced
  sample.
\<close>

theorem empty_identity_rows_stay:
  assumes "col_C r = None \<or> col_C r = Some ''''"
  shows "string_counts (as @ r # bs) = string_counts (as @ bs)
       \<and> r \<notin> set (fst (process_sample n lfs smp))
       \<and> count_list (fst (snd (process_sample n lfs smp))) r = count_list smp r
       \<and> sample_remaining_rows (snd (snd (process_sample n lfs smp)))
           = int (length (fst (snd (process_sample n lfs smp))))"
proof -
  have falsy: "\<not> truthy (col_C r)" using assms by (simp add: falsy_iff)
  then have nlf: "\<not> is_low_freq_row lfs r" by (simp add: is_low_freq_row_def)
  have "count_string r = (\<lambda>counts. counts)" using falsy by (auto simp: count_string_def)
  then have c: "string_counts (as @ r # bs) = string_counts (as @ bs)"
    by (simp add: string_counts_def)
  have l: "r \<notin> set (fst (process_sample n lfs smp))"
    using nlf by (simp add: process_sample_eq Let_def)
  have k: "count_list (fst (snd (process_sample n lfs smp))) r = count_list smp r"
    using nlf by (simp add: process_sample_eq Let_def count_list_filter)
  have m: "sample_remaining_rows (snd (snd (process_sample n lfs smp)))
           = int (length (fst (snd (process_sample n lfs smp))))"
    by (simp add: process_sample_eq Let_def)
  show ?thesis using c l k m by blast
qed

theorem empty_identity_rows_stay_witness:
  "string_counts [\<lparr>col_C = Some ''run'', col_E = None, other_cells = []\<rparr>,
                  \<lparr>col_C = None, col_E = Some ''Y'', other_cells = []\<rparr>]
     = string_counts [\<lparr>col_C = Some ''run'', col_E = None, other_cells = []\<rparr>]
   \<and> count_list (fst (snd (process_sample 2 [''None'', ''run'']
        [\<lparr>col_C = Some ''run'', col_E = None, other_cells = []\<rparr>,
         \<lparr>col_C = None, col_E = Some ''Y'', other_cells = []\<rparr>])))
        \<lparr>col_C = None, col_E = Some ''Y'', other_cells = []\<rparr> = 1"
  using empty_identity_rows_stay[of "\<lparr>col_C = None, col_E = Some ''Y'', other_cells = []\<rparr>"
    "[\<lparr>col_C = Some ''run'', col_E = None, other_cells = []\<rparr>]" "[]" 2 "[''None'', ''run'']"
    "[\<lparr>col_C = Some ''run'', col_E = None, other_cells = []\<rparr>,
         \<lparr>col_C = None, col_E = Some ''Y'', other_cells = []\<rparr>]"]
  by simp

text \<open>
  Claim C6. A type is classified low-frequency exactly when its string is not empty and
  occurs between 1 and 20 times in column C of the full sheet. After the partitioning no
  row with such an identity is left in the reduced sample, and \<open>total_lf_rows\<close> is the
  number of rows removed from the sample sheet.
\<close>

theorem no_double_counting:
  "(s \<in> set (low_freq_of (string_counts full)) \<longleftrightarrow>
      s \<noteq> [] \<and> 0 < occurrences s full \<and> occurrences s full \<le> 20)
   \<and> (s \<in> set (low_freq_of (string_counts full)) \<longrightarrow>
        occurrences s (fst (snd (process_sample (int (length full))
                                   (low_freq_of (string_counts full)) smp))) = 0)
   \<and> total_lf_rows (snd (snd (process_sample (int (length full))
                                   (low_freq_of (string_counts full)) smp)))
        = int (length smp) - int (length (fst (snd (process_sample (int (length full))
                                   (low_freq_of (string_counts full)) smp))))"
proof -
  let ?lfs = "low_freq_of (string_counts full)"
  have a: "s \<in> set ?lfs \<longleftrightarrow> s \<noteq> [] \<and> 0 < occurrences s full \<and> occurrences s full \<le> 20"
    by (rule low_freq_strings_iff)
  have b: "occurrences s (filter (\<lambda>r. \<not> is_low_freq_row ?lfs r) smp) = 0" if "s \<in> set ?lfs"
  proof -
    have "col_C r = Some s \<Longrightarrow> is_low_freq_row ?lfs r" for r
      using that a by (simp add: low_freq_row_iff)
    then show ?thesis by (auto simp: occurrences_def filter_empty_conv)
  qed
  have c: "int (length (filter (is_low_freq_row ?lfs) smp))
        = int (length smp) - int (length (filter (\<lambda>r. \<not> is_low_freq_row ?lfs r) smp))"
    using sum_length_filter_compl[of "is_low_freq_row ?lfs" smp] by simp
  show ?thesis using a b c by (simp add: process_sample_eq Let_def)
qed

theorem no_double_counting_witness:
  "''run'' \<in> set (low_freq_of (string_counts
      [\<lparr>col_C = Some ''run'', col_E = Some ''Y'', other_cells = []\<rparr>]))
   \<and> occurrences ''run'' (fst (snd (process_sample 1
        (low_freq_of (string_counts [\<lparr>col_C = Some ''run'', col_E = Some ''Y'', other_cells = []\<rparr>]))
        [\<lparr>col_C = Some ''run'', col_E = Some ''Y'', other_cells = []\<rparr>]))) = 0
   \<and> total_lf_rows (snd (snd (process_sample 1
        (low_freq_of (string_counts [\<lparr>col_C = Some ''run'', col_E = Some ''Y'', other_cells = []\<rparr>]))
        [\<lparr>col_C = Some ''run'', col_E = Some ''Y'', other_cells = []\<rparr>]))) = 1"
  using no_double_counting[of "''run''"
      "[\<lparr>col_C = Some ''run'', col_E = Some ''Y'', other_cells = []\<rparr>]"
      "[\<lparr>col_C = Some ''run'', col_E = Some ''Y'', other_cells = []\<rparr>]"]
  by (simp add: occurrences_def process_sample_eq Let_def is_low_freq_row_def truthy_def py_str_def)

lemma occurrences_append: "occurrences s (xs @ ys) = occurrences s xs + occurrences s ys"
  by (simp add: occurrences_def)

lemma occurrences_replicate:
  "occurrences s (replicate n r) = (if col_C r = Some s then n else 0)"
  by (simp add: occurrences_def)

text \<open>
  What the low-frequency sheet holds: the rows of the sample sheet, in their order, whose
  identity is a non-empty string that occurs between 1 and 20 times in the full sheet.
  The sheet holds all rows of a low-frequency type whenever the sample sheet holds them
  all, which is what the sampler provides for a type of fewer than 20 rows.
\<close>

lemma low_freq_rows_come_from_sample:
  "fst (process_sample (int (length full)) (low_freq_of (string_counts full)) smp) =
     filter (\<lambda>r. case col_C r of None \<Rightarrow> False
                 | Some s \<Rightarrow> s \<noteq> [] \<and> 0 < occurrences s full \<and> occurrences s full \<le> 20) smp
   \<and> (s \<noteq> [] \<and> 0 < occurrences s full \<and> occurrences s full \<le> 20
        \<and> filter (\<lambda>r. col_C r = Some s) smp = filter (\<lambda>r. col_C r = Some s) full
      \<longrightarrow> filter (\<lambda>r. col_C r = Some s)
            (fst (process_sample (int (length full)) (low_freq_of (string_counts full)) smp))
          = filter (\<lambda>r. col_C r = Some s) full)"
proof -
  let ?low = "\<lambda>r. case col_C r of None \<Rightarrow> False
                 | Some s \<Rightarrow> s \<noteq> [] \<and> 0 < occurrences s full \<and> occurrences s full \<le> 20"
  have 1: "fst (process_sample (int (length full)) (low_freq_of (string_counts full)) smp)
             = filter ?low smp"
    by (simp add: process_sample_eq Let_def low_freq_row_iff[abs_def])
  have 2: "filter (\<lambda>r. col_C r = Some s) (filter ?low smp) = filter (\<lambda>r. col_C r = Some s) smp"
    if "s \<noteq> []" "0 < occurrences s full" "occurrences s full \<le> 20"
    using that by (auto intro!: filter_cong)
  show ?thesis using 1 2 by simp
qed

text \<open>
  A type of 19 rows is coded in full: the sampler keeps a group of fewer than 20 rows
  whole, the type is low-frequency, and the low-frequency sheet holds all its 19 rows.
\<close>

lemma exhaustive_at_nineteen_rows:
  "take_sample first_rows ()
      (replicate 3 \<lparr>col_C = Some ''run'', col_E = Some ''Y'', other_cells = []\<rparr>
       @ replicate 16 \<lparr>col_C = Some ''run'', col_E = Some ''N'', other_cells = []\<rparr>)
     = Inr (replicate 3 \<lparr>col_C = Some ''run'', col_E = Some ''Y'', other_cells = []\<rparr>
            @ replicate 16 \<lparr>col_C = Some ''run'', col_E = Some ''N'', other_cells = []\<rparr>, ())
   \<and> fst (process_sample 19 (low_freq_of (string_counts
          (replicate 3 \<lparr>col_C = Some ''run'', col_E = Some ''Y'', other_cells = []\<rparr>
           @ replicate 16 \<lparr>col_C = Some ''run'', col_E = Some ''N'', other_cells = []\<rparr>)))
        (replicate 3 \<lparr>col_C = Some ''run'', col_E = Some ''Y'', other_cells = []\<rparr>
         @ replicate 16 \<lparr>col_C = Some ''run'', col_E = Some ''N'', other_cells = []\<rparr>))
     = replicate 3 \<lparr>col_C = Some ''run'', col_E = Some ''Y'', other_cells = []\<rparr>
       @ replicate 16 \<lparr>col_C = Some ''run'', col_E = Some ''N'', other_cells = []\<rparr>"
proof -
  have sampled: "take_sample first_rows ()
      (replicate 3 \<lparr>col_C = Some ''run'', col_E = Some ''Y'', other_cells = []\<rparr>
       @ replicate 16 \<lparr>col_C = Some ''run'', col_E = Some ''N'', other_cells = []\<rparr>)
     = Inr (replicate 3 \<lparr>col_C = Some ''run'', col_E = Some ''Y'', other_cells = []\<rparr>
            @ replicate 16 \<lparr>col_C = Some ''run'', col_E = Some ''N'', other_cells = []\<rparr>, ())"
    by code_simp
  have moved: "fst (process_sample 19 (low_freq_of (string_counts
          (replicate 3 \<lparr>col_C = Some ''run'', col_E = Some ''Y'', other_cells = []\<rparr>
           @ replicate 16 \<lparr>col_C = Some ''run'', col_E = Some ''N'', other_cells = []\<rparr>)))
        (replicate 3 \<lparr>col_C = Some ''run'', col_E = Some ''Y'', other_cells = []\<rparr>
         @ replicate 16 \<lparr>col_C = Some ''run'', col_E = Some ''N'', other_cells = []\<rparr>))
     = replicate 3 \<lparr>col_C = Some ''run'', col_E = Some ''Y'', other_cells = []\<rparr>
       @ replicate 16 \<lparr>col_C = Some ''run'', col_E = Some ''N'', other_cells = []\<rparr>"
    by (simp add: process_sample_eq Let_def low_freq_row_iff occurrences_append
          occurrences_replicate)
  show ?thesis using sampled moved by simp
qed

text \<open>
  Claim C2. The comments of the script say that the low-frequency metaphors are
  \<open>coded in full\<close> and \<open>counted directly\<close>, as the claim does, and for a type of fewer
  than 20 rows the sampler keeps every row. A type of exactly 20 rows falls between the
  two scripts: the sampler tests \<open>len(rows) < 20\<close> and draws \<open>int(20 * 0.2) = 4\<close> of its
  rows, the partitioner tests \<open>count <= 20\<close> and takes the type as low-frequency. For a
  full sheet with 20 rows of the type \<open>run\<close>, four coded \<open>Y\<close> and sixteen coded \<open>N\<close>,
  of which the four \<open>Y\<close> rows are drawn, the low-frequency sheet is these four rows and
  \<open>low_freq_metaphors\<close> is 4: the sixteen \<open>N\<close> rows of the full sheet are not in it.
\<close>

theorem exhaustive_low_freq_misses_twenty_rows:
  "take_sample first_rows ()
      (replicate 4 \<lparr>col_C = Some ''run'', col_E = Some ''Y'', other_cells = []\<rparr>
       @ replicate 16 \<lparr>col_C = Some ''run'', col_E = Some ''N'', other_cells = []\<rparr>)
     = Inr (replicate 4 \<lparr>col_C = Some ''run'', col_E = Some ''Y'', other_cells = []\<rparr>, ())
   \<and> occurrences ''run''
      (replicate 4 \<lparr>col_C = Some ''run'', col_E = Some ''Y'', other_cells = []\<rparr>
       @ replicate 16 \<lparr>col_C = Some ''run'', col_E = Some ''N'', other_cells = []\<rparr>) = 20
   \<and> fst (process_sample 20 (low_freq_of (string_counts
          (replicate 4 \<lparr>col_C = Some ''run'', col_E = Some ''Y'', other_cells = []\<rparr>
           @ replicate 16 \<lparr>col_C = Some ''run'', col_E = Some ''N'', other_cells = []\<rparr>)))
        (replicate 4 \<lparr>col_C = Some ''run'', col_E = Some ''Y'', other_cells = []\<rparr>))
     = replicate 4 \<lparr>col_C = Some ''run'', col_E = Some ''Y'', other_cells = []\<rparr>
   \<and> low_freq_metaphors (snd (snd (process_sample 20 (low_freq_of (string_counts
          (replicate 4 \<lparr>col_C = Some ''run'', col_E = Some ''Y'', other_cells = []\<rparr>
           @ replicate 16 \<lparr>col_C = Some ''run'', col_E = Some ''N'', other_cells = []\<rparr>)))
        (replicate 4 \<lparr>col_C = Some ''run'', col_E = Some ''Y'', other_cells = []\<rparr>)))) = 4
   \<and> \<lparr>col_C = Some ''run'', col_E = Some ''N'', other_cells = []\<rparr>
       \<in> set (replicate 4 \<lparr>col_C = Some ''run'', col_E = Some ''Y'', other_cells = []\<rparr>
       @ replicate 16 \<lparr>col_C = Some ''run'', col_E = Some ''N'', other_cells = []\<rparr>)
   \<and> \<lparr>col_C = Some ''run'', col_E = Some ''N'', other_cells = []\<rparr>
       \<notin> set (fst (process_sample 20 (low_freq_of (string_counts
          (replicate 4 \<lparr>col_C = Some ''run'', col_E = Some ''Y'', other_cells = []\<rparr>
           @ replicate 16 \<lparr>col_C = Some ''run'', col_E = Some ''N'', other_cells = []\<rparr>)))
        (replicate 4 \<lparr>col_C = Some ''run'', col_E = Some ''Y'', other_cells = []\<rparr>)))"
proof -
  have sampled: "take_sample first_rows ()
      (replicate 4 \<lparr>col_C = Some ''run'', col_E = Some ''Y'', other_cells = []\<rparr>
       @ replicate 16 \<lparr>col_C = Some ''run'', col_E = Some ''N'', other_cells = []\<rparr>)
     = Inr (replicate 4 \<lparr>col_C = Some ''run'', col_E = Some ''Y'', other_cells = []\<rparr>, ())"
    by code_simp
  have moved: "fst (process_sample 20 (low_freq_of (string_counts
          (replicate 4 \<lparr>col_C = Some ''run'', col_E = Some ''Y'', other_cells = []\<rparr>
           @ replicate 16 \<lparr>col_C = Some ''run'', col_E = Some ''N'', other_cells = []\<rparr>)))
        (replicate 4 \<lparr>col_C = Some ''run'', col_E = Some ''Y'', other_cells = []\<rparr>))
     = replicate 4 \<lparr>col_C = Some ''run'', col_E = Some ''Y'', other_cells = []\<rparr>"
    by (simp add: process_sample_eq Let_def low_freq_row_iff occurrences_append
          occurrences_replicate)
  have counted: "low_freq_metaphors (snd (snd (process_sample 20 (low_freq_of (string_counts
          (replicate 4 \<lparr>col_C = Some ''run'', col_E = Some ''Y'', other_cells = []\<rparr>
           @ replicate 16 \<lparr>col_C = Some ''run'', col_E = Some ''N'', other_cells = []\<rparr>)))
        (replicate 4 \<lparr>col_C = Some ''run'', col_E = Some ''Y'', other_cells = []\<rparr>)))) = 4"
    by (simp add: process_sample_eq Let_def low_freq_row_iff occurrences_append
          occurrences_replicate count_metaphors_filter is_metaphor_spec spec_metaphor_def
          upper_def upper_char_def)
  show ?thesis
    using sampled moved counted by (simp add: occurrences_append occurrences_replicate)
qed

subsection \<open>The scale-up estimate\<close>

lemma occurrences_single:
  "occurrences s [r] = (if col_C r = Some s then 1 else 0)"
  by (simp add: occurrences_def)

text \<open>
  Claim C1. The comment above the estimate says that the sample proportion is scaled to
  the high-frequency rows, and the specification multiplies by
  \<open>total_hf_rows = total_rows - total_lf_rows\<close>; the code multiplies by \<open>row_count\<close>,
  the number of all rows of the full sheet. A full sheet with 21 rows of the type \<open>be\<close>,
  all metaphors, and one row of the type \<open>run\<close>; the sample holds four \<open>be\<close> rows and
  the \<open>run\<close> row. The \<open>run\<close> row is low-frequency and leaves the sample, so
  \<open>total_hf_rows\<close> is 21 and the claimed estimate is \<open>4 / 4 * 21 = 21\<close>; the code
  stores 22.
\<close>

theorem scale_up_multiplies_by_total_rows:
  "(let full = replicate 21 \<lparr>col_C = Some ''be'', col_E = Some ''Y'', other_cells = []\<rparr>
                 @ [\<lparr>col_C = Some ''run'', col_E = Some ''N'', other_cells = []\<rparr>];
        smp = replicate 4 \<lparr>col_C = Some ''be'', col_E = Some ''Y'', other_cells = []\<rparr>
                 @ [\<lparr>col_C = Some ''run'', col_E = Some ''N'', other_cells = []\<rparr>];
        est = snd (snd (process_sample (int (length full)) (low_freq_of (string_counts full)) smp))
    in sample_remaining_rows est = 4 \<and> sample_metaphors est = 4
       \<and> total_lf_rows est = 1 \<and> total_hf_rows est = 21
       \<and> hf_estimated_metaphors est = 22
       \<and> real_of_int (sample_metaphors est) / real_of_int (sample_remaining_rows est)
            * real_of_int (total_hf_rows est) = 21)"
  by (simp add: process_sample_eq Let_def low_freq_row_iff occurrences_append
        occurrences_replicate occurrences_single count_metaphors_filter is_metaphor_spec
        spec_metaphor_def upper_def upper_char_def)

text \<open>
  What the code computes for every sheet: the sample rate times the row count of the full
  sheet, and 0 for an empty reduced sample.
\<close>

lemma scale_up_estimate:
  "hf_estimated_metaphors (snd (snd (process_sample row_count lfs smp))) =
     (if 0 < sample_remaining_rows (snd (snd (process_sample row_count lfs smp)))
      then real_of_int (sample_metaphors (snd (snd (process_sample row_count lfs smp))))
             / real_of_int (sample_remaining_rows (snd (snd (process_sample row_count lfs smp))))
             * real_of_int row_count
      else 0)"
  by (simp add: process_sample_eq Let_def)

section \<open>Properties of the sampler\<close>

subsection \<open>The groups\<close>

text \<open>
  The groups of \<open>rows_by_value\<close>: one for every key that occurs in the worksheet,
  holding the rows with that key in the order of the worksheet.
\<close>

lemma keys_add_row:
  "map fst (add_row k r groups) = (if k \<in> fst ` set groups then map fst groups else map fst groups @ [k])"
  by (induction groups) (force+)

lemma map_of_add_row:
  "map_of (add_row k r groups) k' =
     (if k' = k then Some ((case map_of groups k of None \<Rightarrow> [] | Some rs \<Rightarrow> rs) @ [r])
      else map_of groups k')"
  by (induction groups) auto

lemma distinct_fold_add_row:
  "distinct (map fst acc) \<Longrightarrow>
   distinct (map fst (fold (\<lambda>r groups. add_row (lower (py_str (col_C r))) r groups) ws acc))"
  by (induction ws arbitrary: acc) (auto simp: keys_add_row)

lemma map_of_fold_add_row:
  "map_of (fold (\<lambda>r groups. add_row (lower (py_str (col_C r))) r groups) ws acc) k =
     (if filter (\<lambda>r. lower (py_str (col_C r)) = k) ws = [] then map_of acc k
      else Some ((case map_of acc k of None \<Rightarrow> [] | Some rs \<Rightarrow> rs)
                 @ filter (\<lambda>r. lower (py_str (col_C r)) = k) ws))"
  by (induction ws arbitrary: acc) (auto simp: map_of_add_row)

lemma rows_by_value_groups:
  "distinct (map fst (rows_by_value ws))
   \<and> ((k, rows) \<in> set (rows_by_value ws) \<longleftrightarrow>
        rows \<noteq> [] \<and> rows = filter (\<lambda>r. lower (py_str (col_C r)) = k) ws)"
proof -
  have d: "distinct (map fst (rows_by_value ws))"
    by (simp add: rows_by_value_def distinct_fold_add_row)
  have "(k, rows) \<in> set (rows_by_value ws) \<longleftrightarrow> map_of (rows_by_value ws) k = Some rows"
    using d by simp
  also have "\<dots> \<longleftrightarrow> rows \<noteq> [] \<and> rows = filter (\<lambda>r. lower (py_str (col_C r)) = k) ws"
    by (auto simp: rows_by_value_def map_of_fold_add_row)
  finally show ?thesis using d by simp
qed

subsection \<open>Coverage\<close>

lemma py_int_fifth: "py_int (real n * (1 / 5)) = int (n div 5)"
proof -
  have "\<lfloor>real n / real 5\<rfloor> = int (n div 5)" by (rule floor_divide_of_nat_eq)
  then show ?thesis by (simp add: py_int_def)
qed

lemma floor_fifth: "\<lfloor>real n * (1 / 5)\<rfloor> = int (n div 5)"
  using py_int_fifth[of n] by (simp add: py_int_def)

lemma mset_positions:
  assumes "distinct ps" and "set ps \<subseteq> {..<length xs}"
  shows "mset (map (\<lambda>i. xs ! i) ps) \<subseteq># mset xs"
proof -
  have "mset_set (set ps) \<subseteq># mset_set (set [0 ..< length xs])"
    using assms(2) by (intro subset_imp_msubset_mset_set) auto
  then have "mset ps \<subseteq># mset [0 ..< length xs]"
    using assms(1) by (simp only: mset_set_set distinct_upt)
  then have "image_mset (\<lambda>i. xs ! i) (mset ps)
      \<subseteq># image_mset (\<lambda>i. xs ! i) (mset [0 ..< length xs])"
    by (rule image_mset_subseteq_mono)
  moreover have "image_mset (\<lambda>i. xs ! i) (mset [0 ..< length xs]) = mset xs"
    by (metis map_nth mset_map)
  ultimately show ?thesis by simp
qed

lemma random_sample_sound:
  assumes "sound_source draw" and "0 \<le> k" and "k \<le> int (length xs)"
  shows "\<exists>ys g'. random_sample draw g xs k = Inr (ys, g') \<and> int (length ys) = k \<and> mset ys \<subseteq># mset xs"
proof -
  obtain ps g' where d: "draw g (length xs) (nat k) = (ps, g')" by (cases "draw g (length xs) (nat k)")
  have "nat k \<le> length xs" using assms by linarith
  then have ps: "length ps = nat k" "distinct ps" "set ps \<subseteq> {..<length xs}"
    using assms(1) d unfolding sound_source_def by (metis fst_conv)+
  have "mset (map (\<lambda>i. xs ! i) ps) \<subseteq># mset xs" using ps by (intro mset_positions)
  moreover have "random_sample draw g xs k = Inr (map (\<lambda>i. xs ! i) ps, g')"
    using assms d by (simp add: random_sample_def)
  moreover have "int (length (map (\<lambda>i. xs ! i) ps)) = k" using ps assms by simp
  ultimately show ?thesis by blast
qed

lemma sample_group_coverage:
  assumes "sound_source draw"
  shows "\<exists>ys g'. sample_group 20 (1 / 5) draw g rows = Inr (ys, g') \<and> coverage rows ys"
proof (cases "length rows < 20")
  case True
  then show ?thesis by (simp add: sample_group_def coverage_def)
next
  case False
  let ?k = "max 1 (int (length rows div 5))"
  have "0 \<le> ?k" "?k \<le> int (length rows)" using False by auto
  from random_sample_sound[OF assms this, of g]
  obtain ys g' where r: "random_sample draw g rows ?k = Inr (ys, g')"
     "int (length ys) = ?k" "mset ys \<subseteq># mset rows" by blast
  have "sample_group 20 (1 / 5) draw g rows = Inr (ys, g')"
    using False r(1) py_int_fifth[of "length rows"] by (simp add: sample_group_def Let_def)
  moreover have "coverage rows ys"
    using False r(2,3) floor_fifth[of "length rows"] by (simp add: coverage_def)
  ultimately show ?thesis by blast
qed

lemma sample_groups_coverage:
  assumes "sound_source draw"
  shows "\<exists>sampled g'. sample_groups 20 (1 / 5) draw g groups = Inr (sampled, g')
           \<and> list_all2 (\<lambda>(key, rows) sampled_rows. coverage rows sampled_rows) groups sampled"
proof (induction groups arbitrary: g)
  case Nil
  then show ?case by simp
next
  case (Cons kr groups)
  obtain key rows where kr: "kr = (key, rows)" by (cases kr)
  obtain ys g1 where 1: "sample_group 20 (1 / 5) draw g rows = Inr (ys, g1)" "coverage rows ys"
    using sample_group_coverage[OF assms] by blast
  obtain rest g2 where 2: "sample_groups 20 (1 / 5) draw g1 groups = Inr (rest, g2)"
    "list_all2 (\<lambda>(key, rows) sampled_rows. coverage rows sampled_rows) groups rest"
    using Cons.IH by blast
  show ?case using 1 2 by (simp add: kr)
qed

lemma sound_first_rows: "sound_source first_rows"
  by (auto simp: sound_source_def first_rows_def)

text \<open>
  Claim C4. For every worksheet and every random source that, like \<open>random.sample\<close>,
  chooses different positions of the population, the script ends without an exception,
  and of every group it keeps all rows when the group has fewer than 20 rows, and
  otherwise exactly \<open>max(1, floor(size * 0.2))\<close> rows, drawn without replacement (as a
  multiset the sampled rows are contained in the group). The new worksheet is the
  concatenation of the sampled groups.
\<close>

theorem sampling_coverage:
  assumes "sound_source draw"
  shows "\<exists>sampled g'.
           sample_groups 20 (1 / 5) draw g (rows_by_value worksheet) = Inr (sampled, g')
         \<and> take_sample draw g worksheet = Inr (concat sampled, g')
         \<and> list_all2 (\<lambda>(key, rows) sampled_rows. coverage rows sampled_rows)
              (rows_by_value worksheet) sampled"
proof -
  obtain sampled g' where
    "sample_groups 20 (1 / 5) draw g (rows_by_value worksheet) = Inr (sampled, g')"
    "list_all2 (\<lambda>(key, rows) sampled_rows. coverage rows sampled_rows)
              (rows_by_value worksheet) sampled"
    using sample_groups_coverage[OF assms] by blast
  then show ?thesis by (simp add: take_sample_def take_sample_with_def)
qed

theorem sampling_coverage_witness:
  "sound_source first_rows
   \<and> (\<exists>sampled g'.
         sample_groups 20 (1 / 5) first_rows ()
           (rows_by_value (replicate 25 \<lparr>col_C = Some ''Run'', col_E = None, other_cells = []\<rparr>))
           = Inr (sampled, g')
       \<and> take_sample first_rows ()
           (replicate 25 \<lparr>col_C = Some ''Run'', col_E = None, other_cells = []\<rparr>)
           = Inr (concat sampled, g')
       \<and> list_all2 (\<lambda>(key, rows) sampled_rows. coverage rows sampled_rows)
            (rows_by_value (replicate 25 \<lparr>col_C = Some ''Run'', col_E = None, other_cells = []\<rparr>))
            sampled)
   \<and> take_sample first_rows ()
         (replicate 25 \<lparr>col_C = Some ''Run'', col_E = None, other_cells = []\<rparr>)
       = Inr (replicate 5 \<lparr>col_C = Some ''Run'', col_E = None, other_cells = []\<rparr>, ())"
proof -
  have ev: "take_sample first_rows ()
         (replicate 25 \<lparr>col_C = Some ''Run'', col_E = None, other_cells = []\<rparr>)
       = Inr (replicate 5 \<lparr>col_C = Some ''Run'', col_E = None, other_cells = []\<rparr>, ())"
    by code_simp
  show ?thesis
    using sound_first_rows ev
      sampling_coverage[OF sound_first_rows, of "()"
        "replicate 25 \<lparr>col_C = Some ''Run'', col_E = None, other_cells = []\<rparr>"]
    by blast
qed

section \<open>Properties of the significance script\<close>

subsection \<open>The log ratio\<close>

lemma log_ratio_value:
  assumes "0 \<le> s" "0 \<le> l" "0 < fl"
  shows "log_ratio_log2 s l fl =
     Inr (if 0 < s \<and> 0 < l then log 2 (s / l)
          else if 0 < s then log 2 (s / fl)
          else if 0 < l then log 2 (fl / l)
          else 0)"
proof -
  have "- log 2 (l / fl) = log 2 (fl / l)" if "0 < l"
    using that assms(3) by (simp add: log_divide)
  then show ?thesis using assms
    by (auto simp: log_ratio_log2_def py_div_def math_log2_def Let_def)
qed

text \<open>
  Claim C3, as the code has it. For relative frequencies that are not negative and the
  floor \<open>1e-5\<close>, \<open>log_ratio_log2\<close> always returns a value (no domain error, no division
  by zero): \<open>log2(ssc_rf / lec_rf)\<close> when both are positive; with the floor in the place
  of the side that is 0 when exactly one is 0; and 0 when both are 0. With the SSC side 0
  the value is negative exactly when \<open>lec_rf\<close> is above the floor, and with the LEC side 0
  it is positive exactly when \<open>ssc_rf\<close> is above the floor.
\<close>

theorem log_ratio_zero_handling:
  assumes "0 \<le> s" and "0 \<le> l"
  shows "\<exists>v. log_ratio_log2 s l (1 / 100000) = Inr v
      \<and> v = (if 0 < s \<and> 0 < l then log 2 (s / l)
             else if 0 < s then log 2 (s / (1 / 100000))
             else if 0 < l then log 2 ((1 / 100000) / l)
             else 0)
      \<and> (s = 0 \<and> 0 < l \<longrightarrow> (v < 0 \<longleftrightarrow> 1 / 100000 < l))
      \<and> (l = 0 \<and> 0 < s \<longrightarrow> (0 < v \<longleftrightarrow> 1 / 100000 < s))"
proof -
  let ?v = "if 0 < s \<and> 0 < l then log 2 (s / l)
             else if 0 < s then log 2 (s / (1 / 100000))
             else if 0 < l then log 2 ((1 / 100000) / l)
             else 0"
  have 1: "log_ratio_log2 s l (1 / 100000) = Inr ?v"
    using log_ratio_value[OF assms, of "1 / 100000"] by simp
  have 2: "s = 0 \<and> 0 < l \<longrightarrow> (?v < 0 \<longleftrightarrow> 1 / 100000 < l)"
    by (auto simp: log_less_zero_cancel_iff)
  have 3: "l = 0 \<and> 0 < s \<longrightarrow> (0 < ?v \<longleftrightarrow> 1 / 100000 < s)"
    by (auto simp: zero_less_log_cancel_iff)
  show ?thesis using 1 2 3 by blast
qed

theorem log_ratio_zero_handling_witness:
  "(0::real) \<le> 0 \<and> (0::real) \<le> 3
   \<and> (\<exists>v. log_ratio_log2 0 3 (1 / 100000) = Inr v \<and> v = log 2 ((1 / 100000) / 3) \<and> v < 0)"
  using log_ratio_zero_handling[of 0 3] by auto

text \<open>
  Claim C3 as stated fails: the sign is not always preserved. With \<open>ssc_rf = 0\<close> and
  \<open>lec_rf = 1e-6\<close>, a positive relative frequency below the floor, the value is
  \<open>-log2(1e-6 / 1e-5) = log2(10)\<close>, which is positive although the SSC side is 0.
\<close>

theorem sign_preservation_counterexample:
  "log_ratio_log2 0 (1 / 1000000) (1 / 100000) = Inr (log 2 10) \<and> 0 < log 2 (10::real)"
proof -
  have "- log 2 ((1 / 1000000) / (1 / 100000) :: real) = log 2 10"
    by (simp add: log_divide)
  then show ?thesis
    by (simp add: log_ratio_log2_def py_div_def math_log2_def Let_def)
qed

subsection \<open>Corpus sizes\<close>

lemma add_cell_no_error: "\<exists>v. add_cell g obs e = Inr v"
  by (auto simp: add_cell_def py_div_def math_log_def)

lemma g2_no_error: "\<exists>v. g2_log_likelihood a b s l = Inr v"
proof (cases "s + l \<le> 0")
  case True
  then show ?thesis by (simp add: g2_log_likelihood_def)
next
  case False
  obtain g1 where 1: "add_cell 0 a ((a + b) * s / (s + l)) = Inr g1"
    using add_cell_no_error by blast
  obtain g2 where 2: "add_cell g1 b ((a + b) * l / (s + l)) = Inr g2"
    using add_cell_no_error by blast
  obtain g3 where 3: "add_cell g2 (s - a) ((s - a + (l - b)) * s / (s + l)) = Inr g3"
    using add_cell_no_error by blast
  obtain g4 where 4: "add_cell g3 (l - b) ((s - a + (l - b)) * l / (s + l)) = Inr g4"
    using add_cell_no_error by blast
  show ?thesis using False 1 2 3 4 by (simp add: g2_log_likelihood_def Let_def)
qed

lemma log_ratio_no_error: "0 < fl \<Longrightarrow> \<exists>v. log_ratio_log2 s l fl = Inr v"
  by (auto simp: log_ratio_log2_def py_div_def math_log2_def Let_def)

lemma row_statistics_no_error: "\<exists>r. row_statistics sf s l vg row = Inr r"
proof -
  obtain g where g: "g2_log_likelihood (SSC_Raw row) (LEC_Raw row) s l = Inr g"
    using g2_no_error by blast
  obtain lr where lr: "log_ratio_log2 (SSC_RF row) (LEC_RF row) (1 / 100000) = Inr lr"
    using log_ratio_no_error[of "1 / 100000"] by auto
  show ?thesis using g lr by (simp add: row_statistics_def Let_def)
qed

lemma group_statistics_no_error: "\<exists>rs. group_statistics sf s l df = Inr rs"
proof (induction df)
  case Nil
  then show ?case by simp
next
  case (Cons row df)
  obtain r where r: "row_statistics sf s l (Vehicle_group row) row = Inr r"
    using row_statistics_no_error by blast
  from Cons obtain rs where rs: "group_statistics sf s l df = Inr rs" by blast
  show ?case using r rs by simp
qed

lemma length_group_statistics:
  "group_statistics sf s l df = Inr rs \<Longrightarrow> length rs = length (filter (\<lambda>r. \<not> is_totals r) df)"
proof (induction df arbitrary: rs)
  case Nil
  then show ?case by simp
next
  case (Cons row df)
  show ?case
  proof (cases "is_totals row")
    case True
    then show ?thesis using Cons by simp
  next
    case False
    obtain r where r: "row_statistics sf s l (Vehicle_group row) row = Inr r"
      using row_statistics_no_error[of sf s l "Vehicle_group row" row] by blast
    obtain rest where rest: "group_statistics sf s l df = Inr rest"
      using group_statistics_no_error[of sf s l df] by blast
    have "rs = r # rest" using Cons.prems False r rest by simp
    then show ?thesis using Cons.IH[OF rest] False by simp
  qed
qed

lemma calculate_statistics_sizes:
  "(\<forall>e. corpus_sizes df ssc lec = Inl e \<longrightarrow> calculate_statistics sf df ssc lec = Inl e)
   \<and> (\<forall>s l. corpus_sizes df ssc lec = Inr (s, l) \<longrightarrow>
         (df \<noteq> [] \<longrightarrow> (\<exists>rs. calculate_statistics sf df ssc lec = Inr rs))
       \<and> (df = [] \<longrightarrow> calculate_statistics sf df ssc lec = Inl (KeyError ''p_value'')))"
proof (intro conjI allI impI)
  fix e assume "corpus_sizes df ssc lec = Inl e"
  then show "calculate_statistics sf df ssc lec = Inl e"
    by (simp add: calculate_statistics_def)
next
  fix s l assume c: "corpus_sizes df ssc lec = Inr (s, l)" and ne: "df \<noteq> []"
  obtain rs where rs: "group_statistics sf s l df = Inr rs"
    using group_statistics_no_error[of sf s l df] by blast
  show "\<exists>rs. calculate_statistics sf df ssc lec = Inr rs"
  proof (cases "filter is_totals df")
    case Nil
    then have "filter (\<lambda>r. \<not> is_totals r) df = df"
      by (simp add: filter_empty_conv filter_id_conv)
    then have "rs \<noteq> []" using length_group_statistics[OF rs] ne by auto
    then show ?thesis using c rs Nil by (simp add: calculate_statistics_def result_table_def)
  next
    case (Cons t ts)
    obtain r where "row_statistics sf s l ''TOTALS'' t = Inr r"
      using row_statistics_no_error[of sf s l "''TOTALS''" t] by blast
    then show ?thesis using c rs Cons by (simp add: calculate_statistics_def result_table_def)
  qed
next
  fix s l assume c: "corpus_sizes df ssc lec = Inr (s, l)" and e: "df = []"
  show "calculate_statistics sf df ssc lec = Inl (KeyError ''p_value'')"
    using c e by (simp add: calculate_statistics_def result_table_def)
qed

lemma infer_value:
  "infer_corpus_sizes_from_totals df =
     (case filter is_totals df of
        [] \<Rightarrow> Inl (ValueError ''No TOTALS row found.'')
      | t # _ \<Rightarrow>
         if SSC_RF t \<le> 0 \<or> LEC_RF t \<le> 0
         then Inl (ValueError ''TOTALS RF values must be > 0 to infer corpus size.'')
         else Inr (SSC_Raw t * 1000 / SSC_RF t, LEC_Raw t * 1000 / LEC_RF t))"
  by (auto simp: infer_corpus_sizes_from_totals_def py_div_def Let_def split: list.splits)

text \<open>
  Claim C8, as the code has it. When both corpus sizes are supplied they are used, and
  refused with an error when one is not positive. When an argument is missing, both
  sizes are inferred from the first row whose group label, upper-cased, is \<open>TOTALS\<close>, as
  \<open>raw_total * 1000 / rf_total\<close>, and a size supplied alone is discarded; the engine
  then fails when there is no such row, when a relative frequency of that row is not
  positive, and when an inferred size is not positive. \<open>calculate_statistics\<close> fails with
  every error of this step; with sizes established, which are then positive, it returns
  its table for a table of at least one row and raises \<open>KeyError\<close> for an empty one.
\<close>

theorem corpus_size_establishment:
  "corpus_sizes df (Some ssc) (Some lec) =
      (if ssc \<le> 0 \<or> lec \<le> 0 then Inl (ValueError ''Corpus sizes must be > 0.'')
       else Inr (ssc, lec))
   \<and> (ssc_words = None \<or> lec_words = None \<longrightarrow>
        corpus_sizes df ssc_words lec_words =
          (case filter (\<lambda>r. upper (Vehicle_group r) = ''TOTALS'') df of
             [] \<Rightarrow> Inl (ValueError ''No TOTALS row found.'')
           | t # _ \<Rightarrow>
              if SSC_RF t \<le> 0 \<or> LEC_RF t \<le> 0
              then Inl (ValueError ''TOTALS RF values must be > 0 to infer corpus size.'')
              else if SSC_Raw t * 1000 / SSC_RF t \<le> 0 \<or> LEC_Raw t * 1000 / LEC_RF t \<le> 0
              then Inl (ValueError ''Corpus sizes must be > 0.'')
              else Inr (SSC_Raw t * 1000 / SSC_RF t, LEC_Raw t * 1000 / LEC_RF t)))
   \<and> (\<forall>e. corpus_sizes df ssc_words lec_words = Inl e \<longrightarrow>
            calculate_statistics chi2_sf df ssc_words lec_words = Inl e)
   \<and> (\<forall>s l. corpus_sizes df ssc_words lec_words = Inr (s, l) \<longrightarrow>
            0 < s \<and> 0 < l
          \<and> (df \<noteq> [] \<longrightarrow> (\<exists>rs. calculate_statistics chi2_sf df ssc_words lec_words = Inr rs))
          \<and> (df = [] \<longrightarrow>
                calculate_statistics chi2_sf df ssc_words lec_words = Inl (KeyError ''p_value'')))"
proof -
  have a: "corpus_sizes df (Some ssc) (Some lec) =
      (if ssc \<le> 0 \<or> lec \<le> 0 then Inl (ValueError ''Corpus sizes must be > 0.'')
       else Inr (ssc, lec))"
    by (simp add: corpus_sizes_def)
  have tot: "is_totals = (\<lambda>r. upper (Vehicle_group r) = ''TOTALS'')"
    by (rule ext) (simp add: is_totals_def)
  have b: "ssc_words = None \<or> lec_words = None \<longrightarrow>
        corpus_sizes df ssc_words lec_words =
          (case filter (\<lambda>r. upper (Vehicle_group r) = ''TOTALS'') df of
             [] \<Rightarrow> Inl (ValueError ''No TOTALS row found.'')
           | t # _ \<Rightarrow>
              if SSC_RF t \<le> 0 \<or> LEC_RF t \<le> 0
              then Inl (ValueError ''TOTALS RF values must be > 0 to infer corpus size.'')
              else if SSC_Raw t * 1000 / SSC_RF t \<le> 0 \<or> LEC_Raw t * 1000 / LEC_RF t \<le> 0
              then Inl (ValueError ''Corpus sizes must be > 0.'')
              else Inr (SSC_Raw t * 1000 / SSC_RF t, LEC_Raw t * 1000 / LEC_RF t))"
  proof
    assume "ssc_words = None \<or> lec_words = None"
    then have "corpus_sizes df ssc_words lec_words =
       bind_result (infer_corpus_sizes_from_totals df)
        (\<lambda>(s, l). if s \<le> 0 \<or> l \<le> 0 then Inl (ValueError ''Corpus sizes must be > 0.'')
          else Inr (s, l))"
      by (auto simp: corpus_sizes_def split: option.splits)
    then show "corpus_sizes df ssc_words lec_words =
          (case filter (\<lambda>r. upper (Vehicle_group r) = ''TOTALS'') df of
             [] \<Rightarrow> Inl (ValueError ''No TOTALS row found.'')
           | t # _ \<Rightarrow>
              if SSC_RF t \<le> 0 \<or> LEC_RF t \<le> 0
              then Inl (ValueError ''TOTALS RF values must be > 0 to infer corpus size.'')
              else if SSC_Raw t * 1000 / SSC_RF t \<le> 0 \<or> LEC_Raw t * 1000 / LEC_RF t \<le> 0
              then Inl (ValueError ''Corpus sizes must be > 0.'')
              else Inr (SSC_Raw t * 1000 / SSC_RF t, LEC_Raw t * 1000 / LEC_RF t))"
      by (simp add: infer_value tot split: list.splits)
  qed
  have pos: "0 < s \<and> 0 < l" if "corpus_sizes df ssc_words lec_words = Inr (s, l)" for s l
  proof -
    obtain x where x: "(case (ssc_words, lec_words) of
          (Some ssc, Some lec) \<Rightarrow> Inr (ssc, lec)
        | _ \<Rightarrow> infer_corpus_sizes_from_totals df) = x" by simp
    show ?thesis
    proof (cases x)
      case (Inl e)
      then show ?thesis using that x by (simp add: corpus_sizes_def)
    next
      case (Inr p)
      then show ?thesis using that x
        by (cases p) (auto simp: corpus_sizes_def split: if_splits)
    qed
  qed
  show ?thesis using a b pos calculate_statistics_sizes[of df ssc_words lec_words chi2_sf]
    by blast
qed

theorem corpus_size_establishment_witness:
  "corpus_sizes [\<lparr>Vehicle_group = ''Totals'', SSC_Raw = 50, SSC_RF = 5 / 2,
                   LEC_Raw = 10, LEC_RF = 4 / 5\<rparr>] None None = Inr (20000, 12500)
   \<and> corpus_sizes [] None None = Inl (ValueError ''No TOTALS row found.'')
   \<and> corpus_sizes [] (Some 0) (Some 12500) = Inl (ValueError ''Corpus sizes must be > 0.'')
   \<and> (\<exists>rs. calculate_statistics (\<lambda>x. 1)
               [\<lparr>Vehicle_group = ''Totals'', SSC_Raw = 50, SSC_RF = 5 / 2,
                  LEC_Raw = 10, LEC_RF = 4 / 5\<rparr>] None None = Inr rs)"
  using corpus_size_establishment[of
          "[\<lparr>Vehicle_group = ''Totals'', SSC_Raw = 50, SSC_RF = 5 / 2,
             LEC_Raw = 10, LEC_RF = 4 / 5\<rparr>]" 0 12500 None None "\<lambda>x. 1"]
        corpus_size_establishment[of "[]" 0 12500 None None "\<lambda>x. 1"]
  by (simp add: upper_def upper_char_def)

text \<open>
  Claim C8 as stated fails: a supplied size that is not positive does not always make
  the engine fail. With \<open>ssc_words = -5\<close> supplied alone (\<open>lec_words\<close> is \<open>None\<close>) and a
  TOTALS row with positive values, the supplied size is discarded, both sizes are
  inferred, and \<open>calculate_statistics\<close> returns its table.
\<close>

theorem lone_supplied_size_counterexample:
  "corpus_sizes [\<lparr>Vehicle_group = ''TOTALS'', SSC_Raw = 50, SSC_RF = 5 / 2,
                   LEC_Raw = 10, LEC_RF = 4 / 5\<rparr>] (Some (- 5)) None = Inr (20000, 12500)
   \<and> (\<exists>rs. calculate_statistics (\<lambda>x. 1)
               [\<lparr>Vehicle_group = ''TOTALS'', SSC_Raw = 50, SSC_RF = 5 / 2,
                  LEC_Raw = 10, LEC_RF = 4 / 5\<rparr>] (Some (- 5)) None = Inr rs)"
proof -
  have sizes: "corpus_sizes [\<lparr>Vehicle_group = ''TOTALS'', SSC_Raw = 50, SSC_RF = 5 / 2,
                   LEC_Raw = 10, LEC_RF = 4 / 5\<rparr>] (Some (- 5)) None = Inr (20000, 12500)"
    by (simp add: corpus_sizes_def infer_value is_totals_def upper_def upper_char_def)
  show ?thesis
    using sizes calculate_statistics_sizes[of
        "[\<lparr>Vehicle_group = ''TOTALS'', SSC_Raw = 50, SSC_RF = 5 / 2,
            LEC_Raw = 10, LEC_RF = 4 / 5\<rparr>]" "Some (- 5)" None "\<lambda>x. 1"]
    by simp
qed

subsection \<open>The log-likelihood statistic\<close>

lemma add_cell_spec:
  assumes "0 \<le> obs" and "0 < obs \<Longrightarrow> 0 < e"
  shows "add_cell g obs e = Inr (g + spec_cell obs e)"
  using assms by (auto simp: add_cell_def spec_cell_def py_div_def math_log_def)

lemma spec_cell_lower:
  assumes "0 \<le> obs" and "0 \<le> e" and "0 < obs \<Longrightarrow> 0 < e"
  shows "obs - e \<le> spec_cell obs e"
proof (cases "obs = 0")
  case True
  then show ?thesis using assms by (simp add: spec_cell_def)
next
  case False
  then have o: "0 < obs" and e: "0 < e" using assms by auto
  have "ln (e / obs) \<le> e / obs - 1" using o e by (intro ln_le_minus_one) simp
  moreover have "ln (e / obs) = - ln (obs / e)" using o e by (simp add: ln_div)
  ultimately have "1 - e / obs \<le> ln (obs / e)" by simp
  then have "obs * (1 - e / obs) \<le> obs * ln (obs / e)"
    using o by (intro mult_left_mono) auto
  moreover have "obs * (1 - e / obs) = obs - e" using o by (simp add: field_simps)
  ultimately show ?thesis using False by (simp add: spec_cell_def)
qed

text \<open>
  In exact arithmetic the statistic of the code is the statistic of the specification and
  is not negative, for positive corpus sizes and counts within them: every cell
  contributes at least observed minus expected, and these differences add up to 0.
  Python computes with doubles, where the sum can round below 0.
\<close>

lemma g2_exact_arithmetic:
  assumes "0 < s" "0 < l" "0 \<le> a" "a \<le> s" "0 \<le> b" "b \<le> l"
  shows "g2_log_likelihood a b s l = Inr (spec_g2 a b s l) \<and> 0 \<le> spec_g2 a b s l"
proof -
  let ?T = "s + l"
  let ?c = "s - a" and ?d = "l - b"
  let ?e1 = "(a + b) * s / ?T" and ?e2 = "(a + b) * l / ?T"
  let ?e3 = "(?c + ?d) * s / ?T" and ?e4 = "(?c + ?d) * l / ?T"
  have T: "0 < ?T" using assms by simp
  have c: "0 \<le> ?c" and d: "0 \<le> ?d" using assms by auto
  have p1: "0 < a \<Longrightarrow> 0 < ?e1" using assms T by (intro divide_pos_pos mult_pos_pos) auto
  have p2: "0 < b \<Longrightarrow> 0 < ?e2" using assms T by (intro divide_pos_pos mult_pos_pos) auto
  have p3: "0 < ?c \<Longrightarrow> 0 < ?e3" using assms T c d by (intro divide_pos_pos mult_pos_pos) auto
  have p4: "0 < ?d \<Longrightarrow> 0 < ?e4" using assms T c d by (intro divide_pos_pos mult_pos_pos) auto
  have n1: "0 \<le> ?e1" and n2: "0 \<le> ?e2" and n3: "0 \<le> ?e3" and n4: "0 \<le> ?e4"
    using assms T c d by auto
  have val: "g2_log_likelihood a b s l = Inr (spec_g2 a b s l)"
    using T add_cell_spec[OF assms(3) p1] add_cell_spec[OF assms(5) p2]
          add_cell_spec[OF c p3] add_cell_spec[OF d p4]
    by (simp add: g2_log_likelihood_def spec_g2_def Let_def)
  have "(a - ?e1) + (b - ?e2) + (?c - ?e3) + (?d - ?e4) = 0"
    using T by (simp add: field_simps)
  moreover have "a - ?e1 \<le> spec_cell a ?e1" by (rule spec_cell_lower[OF assms(3) n1 p1])
  moreover have "b - ?e2 \<le> spec_cell b ?e2" by (rule spec_cell_lower[OF assms(5) n2 p2])
  moreover have "?c - ?e3 \<le> spec_cell ?c ?e3" by (rule spec_cell_lower[OF c n3 p3])
  moreover have "?d - ?e4 \<le> spec_cell ?d ?e4" by (rule spec_cell_lower[OF d n4 p4])
  ultimately have "0 \<le> spec_cell a ?e1 + spec_cell b ?e2 + spec_cell ?c ?e3 + spec_cell ?d ?e4"
    by linarith
  then have "0 \<le> spec_g2 a b s l" by (simp add: spec_g2_def Let_def)
  then show ?thesis using val by simp
qed

end
